theory Spec2Isabelle
  imports Complex_Main "HOL-Library.Sublist"
begin

section \<open>home\_usage.py: disk-usage warnings with a one-day cooldown\<close>

text \<open>
  The script lists the per-user disk usage of a group (Starfish), and for every user above
  the limit asks the configuration server for the Workday record, decides with
  \<open>notify_allowed\<close> whether the user may be mailed, sends the mail and records the
  notification in the MongoDB collection \<open>overage\<close>.

  The embedding follows \<^verbatim>\<open>src/bin/home_usage.py\<close> function by function. What the script
  reaches through libraries (HTTP, SMTP, MongoDB, the wall clock) is an environment \<open>env\<close>
  that answers the \<open>n\<close>-th interaction of the run; the state counts the interactions in
  \<open>tick\<close>, so that the environment may answer the same request differently at different
  moments. Every function returns the state together with its result, also when it raises.
\<close>

subsection \<open>Python values\<close>

text \<open>
  What \<^verbatim>\<open>req.json()\<close> returns: \<open>JNull\<close> is Python's \<^verbatim>\<open>None\<close>. A \<open>JDict\<close> lists the items
  of the dictionary; keys are looked up from the front.
\<close>

datatype json =
    JNull
  | JBool bool
  | JInt int
  | JFloat real
  | JStr string
  | JList "json list"
  | JDict "(string \<times> json) list"

text \<open>
  The exceptions of the run. \<open>SystemExit\<close> is what \<^verbatim>\<open>sys.exit\<close> raises; it is not an
  \<^verbatim>\<open>Exception\<close>, so no \<^verbatim>\<open>except Exception\<close> clause catches it. \<open>RequestException\<close>,
  \<open>SendError\<close> and \<open>MongoError\<close> stand for what \<^verbatim>\<open>requests.get\<close>, \<^verbatim>\<open>JRC.send_email\<close> and
  the collection's methods raise.
\<close>

datatype exn =
    SystemExit int
  | KeyError string
  | TypeError
  | HTTPError
  | RequestException
  | JSONDecodeError
  | SendError
  | MongoError

text \<open>
  A Python float. A finite one is the real number it denotes; \<^verbatim>\<open>float\<close>, the type of
  the option \<^verbatim>\<open>--limit\<close>, also reads \<^verbatim>\<open>inf\<close>, \<^verbatim>\<open>-inf\<close> and \<^verbatim>\<open>nan\<close>.
\<close>

datatype pyfloat = Finite real | PosInf | NegInf | NaN

text \<open>
  \<^verbatim>\<open>x * (1024 ** 4)\<close> for a float \<open>x\<close>. The integer \<open>1024 ** 4\<close> is a power of two and
  becomes a float exactly; the product of a finite float with it only changes the exponent,
  so it is exact as long as it stays in the range of a float, below \<open>2 ^ 1024\<close> in absolute
  value, and is an infinity beyond.
\<close>

fun times_1024_4 :: "pyfloat \<Rightarrow> pyfloat" where
  "times_1024_4 (Finite x) =
     (if \<bar>x\<bar> * 1024 ^ 4 < 2 ^ 1024 then Finite (x * 1024 ^ 4)
      else if 0 < x then PosInf else NegInf)"
| "times_1024_4 PosInf = PosInf"
| "times_1024_4 NegInf = NegInf"
| "times_1024_4 NaN = NaN"

text \<open>\<^verbatim>\<open>i > x\<close> for an integer \<open>i\<close> and a float \<open>x\<close>: Python compares the exact values,
  every integer is below \<^verbatim>\<open>inf\<close>, and no comparison with \<^verbatim>\<open>nan\<close> holds.\<close>

fun int_gt :: "int \<Rightarrow> pyfloat \<Rightarrow> bool" where
  "int_gt i (Finite x) = (x < real_of_int i)"
| "int_gt i PosInf = False"
| "int_gt i NegInf = True"
| "int_gt i NaN = False"

text \<open>\<^verbatim>\<open>not v\<close> is \<open>\<not> truthy v\<close>.\<close>

fun truthy :: "json \<Rightarrow> bool" where
  "truthy JNull = False"
| "truthy (JBool b) = b"
| "truthy (JInt i) = (i \<noteq> 0)"
| "truthy (JFloat r) = (r \<noteq> 0)"
| "truthy (JStr s) = (s \<noteq> [])"
| "truthy (JList xs) = (xs \<noteq> [])"
| "truthy (JDict kvs) = (kvs \<noteq> [])"

text \<open>\<^verbatim>\<open>k in v\<close> for a string \<open>k\<close>: key membership in a dictionary, substring test in a
  string, element test in a list, \<^verbatim>\<open>TypeError\<close> for a value that is not iterable.\<close>

fun contains :: "json \<Rightarrow> string \<Rightarrow> exn + bool" where
  "contains (JDict kvs) k = Inr (k \<in> set (map fst kvs))"
| "contains (JStr s) k = Inr (sublist k s)"
| "contains (JList xs) k = Inr (JStr k \<in> set xs)"
| "contains JNull k = Inl TypeError"
| "contains (JBool b) k = Inl TypeError"
| "contains (JInt i) k = Inl TypeError"
| "contains (JFloat r) k = Inl TypeError"

text \<open>\<^verbatim>\<open>v[k]\<close> for a string \<open>k\<close>: the value of the key, \<^verbatim>\<open>KeyError\<close> when the dictionary
  lacks it, \<^verbatim>\<open>TypeError\<close> for every value that is not a dictionary.\<close>

fun subscript :: "json \<Rightarrow> string \<Rightarrow> exn + json" where
  "subscript (JDict kvs) k = (case map_of kvs k of None \<Rightarrow> Inl (KeyError k) | Some v \<Rightarrow> Inr v)"
| "subscript JNull k = Inl TypeError"
| "subscript (JBool b) k = Inl TypeError"
| "subscript (JInt i) k = Inl TypeError"
| "subscript (JFloat r) k = Inl TypeError"
| "subscript (JStr s) k = Inl TypeError"
| "subscript (JList xs) k = Inl TypeError"

subsection \<open>Time\<close>

text \<open>
  A \<^verbatim>\<open>datetime\<close> is its number of microseconds since a fixed origin, so the difference of
  two is the \<^verbatim>\<open>timedelta\<close> in microseconds. Python normalises a \<^verbatim>\<open>timedelta\<close> to
  \<open>days\<close>, \<open>0 \<le> seconds < 86400\<close> and \<open>0 \<le> microseconds < 1000000\<close>; only \<open>days\<close> may be
  negative.
\<close>

definition DAY :: int where
  "DAY = 3600 * 24"

definition days :: "int \<Rightarrow> int" where
  "days delta = delta div (DAY * 1000000)"

definition seconds :: "int \<Rightarrow> int" where
  "seconds delta = (delta mod (DAY * 1000000)) div 1000000"

subsection \<open>The collection \<open>DB['storage'].overage\<close>\<close>

record overage_doc =
  userId :: string
  size_str :: string
  notified :: int

text \<open>\<^verbatim>\<open>coll.find_one({'userId': userid})\<close>: the first document of that user, or \<^verbatim>\<open>None\<close>.\<close>

fun find_one :: "overage_doc list \<Rightarrow> string \<Rightarrow> overage_doc option" where
  "find_one [] userid = None"
| "find_one (d # ds) userid = (if userId d = userid then Some d else find_one ds userid)"

text \<open>A \<^verbatim>\<open>datetime\<close> as the collection stores it: a BSON date counts milliseconds, and
  the microseconds below a millisecond are dropped.\<close>

definition bson_datetime :: "int \<Rightarrow> int" where
  "bson_datetime t = t - t mod 1000"

text \<open>\<^verbatim>\<open>coll.update_one({'userId': userid}, {"$set": payload}, upsert=True)\<close>: the fields
  of the payload are set in the first document of that user; without one, a document with
  the fields of the query and of the payload is inserted (the payload has \<open>userId\<close> too).
  Either way the time is stored as a BSON date.\<close>

fun update_one :: "overage_doc list \<Rightarrow> string \<Rightarrow> overage_doc \<Rightarrow> overage_doc list" where
  "update_one [] userid payload =
     [\<lparr>userId = userId payload, size_str = size_str payload,
       notified = bson_datetime (notified payload)\<rparr>]"
| "update_one (d # ds) userid payload =
     (if userId d = userid
      then d\<lparr>userId := userId payload, size_str := size_str payload,
             notified := bson_datetime (notified payload)\<rparr> # ds
      else d # update_one ds userid payload)"

subsection \<open>Environment and state\<close>

datatype 'b response =
    Get_raises
  | Response nat "'b option"

text \<open>A usage record of the Starfish response: \<^verbatim>\<open>usr['fn']\<close>,
  \<^verbatim>\<open>usr['rec_aggrs']['size']\<close> and \<^verbatim>\<open>usr['rec_aggrs']['size_hum']\<close>.\<close>

record usage =
  fn :: string
  rec_size :: int
  rec_size_hum :: string

text \<open>
  \<open>LIMIT\<close>, \<open>WRITE\<close> and \<open>GROUP\<close> are the command line (\<^verbatim>\<open>ARG\<close>); \<open>REST_query\<close> is the
  configured Starfish query of a group.
  \<open>starfish n\<close> and \<open>config n\<close> answer a GET that is the \<open>n\<close>-th interaction, with the status
  code and the decoded body (\<open>None\<close> when the body is not JSON); \<open>clock n\<close> is
  \<^verbatim>\<open>datetime.now()\<close> there; \<open>mail_fails n\<close> and \<open>db_fails n\<close> say whether
  \<^verbatim>\<open>JRC.send_email\<close> or a method of the collection raises there.
\<close>

record env =
  LIMIT :: pyfloat
  WRITE :: bool
  GROUP :: string
  REST_query :: "string \<Rightarrow> string"
  starfish :: "nat \<Rightarrow> string \<Rightarrow> usage list response"
  config :: "nat \<Rightarrow> string \<Rightarrow> json response"
  clock :: "nat \<Rightarrow> int"
  mail_fails :: "nat \<Rightarrow> bool"
  db_fails :: "nat \<Rightarrow> bool"

datatype level = Info | Warning | Error | Critical

datatype log_msg =
    Exn exn
  | Status nat
  | Content
  | Sending_email_to json
  | Can_be_notified_in string int
  | Not_found_in_Workday string

datatype colour = GREEN | YELLOW | RED

record email =
  first :: json
  consumed :: string
  limit :: pyfloat
  sender :: string
  receivers :: "json list"
  subject :: string

record state =
  overage :: "overage_doc list"
  tick :: nat
  log :: "(level \<times> log_msg) list"
  outbox :: "email list"
  printed :: "(colour \<times> string \<times> string) list"

definition SENDER :: string where
  "SENDER = ''donotreply@hhmi.org''"

definition advance :: "state \<Rightarrow> state" where
  "advance s = s\<lparr>tick := Suc (tick s)\<rparr>"

definition logging :: "level \<Rightarrow> log_msg \<Rightarrow> state \<Rightarrow> state" where
  "logging l m s = s\<lparr>log := log s @ [(l, m)]\<rparr>"

definition print :: "colour \<Rightarrow> usage \<Rightarrow> state \<Rightarrow> state" where
  "print c usr s = s\<lparr>printed := printed s @ [(c, fn usr, rec_size_hum usr)]\<rparr>"

subsection \<open>The functions of the script\<close>

text \<open>\<^verbatim>\<open>terminate_program(msg)\<close>: logs the message, if any, and exits.\<close>

definition terminate_program :: "log_msg option \<Rightarrow> state \<Rightarrow> (exn + 'a) \<times> state" where
  "terminate_program msg s =
     (case msg of
        Some m \<Rightarrow> (Inl (SystemExit (- 1)), logging Critical m s)
      | None \<Rightarrow> (Inl (SystemExit 0), s))"

text \<open>\<^verbatim>\<open>call_responder(server, endpoint)\<close>; the result \<open>None\<close> is Python's \<^verbatim>\<open>None\<close>.\<close>

definition call_responder ::
  "(nat \<Rightarrow> string \<Rightarrow> 'b response) \<Rightarrow> string \<Rightarrow> state \<Rightarrow> (exn + 'b option) \<times> state" where
  "call_responder server endpoint s =
     (case server (tick s) endpoint of
        Get_raises \<Rightarrow> terminate_program (Some (Exn RequestException)) (advance s)
      | Response status_code body \<Rightarrow>
          if status_code = 200 then
            (case body of
               None \<Rightarrow> (Inl JSONDecodeError, advance s)
             | Some j \<Rightarrow> (Inr (Some j), advance s))
          else if status_code = 404 then (Inr None, advance s)
          else terminate_program (Some (Status status_code))
                 (if status_code = 400 then logging Error Content (advance s) else advance s))"

text \<open>\<^verbatim>\<open>generate_email(userid, work, consumed)\<close>. The first \<^verbatim>\<open>try\<close> covers the lookup of
  \<^verbatim>\<open>work['email']\<close> too, the message built before it does not.\<close>

definition generate_email :: "env \<Rightarrow> string \<Rightarrow> json \<Rightarrow> string \<Rightarrow> state \<Rightarrow> (exn + unit) \<times> state" where
  "generate_email e userid work consumed' s =
     (case subscript work ''first'' of
        Inl err \<Rightarrow> (Inl err, s)
      | Inr first' \<Rightarrow>
          (case subscript work ''email'' of
             Inl err \<Rightarrow> (Inr (), logging Error (Exn err) s)
           | Inr email' \<Rightarrow>
               let s1 = logging Info (Sending_email_to email') s in
               if mail_fails e (tick s1) then (Inr (), logging Error (Exn SendError) (advance s1))
               else
                 let s2 = advance (s1\<lparr>outbox := outbox s1 @
                            [\<lparr>first = first', consumed = consumed', limit = LIMIT e,
                              sender = SENDER, receivers = [email'],
                              subject = ''Disk space warning''\<rparr>]\<rparr>);
                     payload = \<lparr>userId = userid, size_str = consumed',
                                notified = clock e (tick s2)\<rparr>;
                     s3 = advance s2
                 in if db_fails e (tick s3)
                    then terminate_program (Some (Exn MongoError)) (advance s3)
                    else (Inr (), advance (s3\<lparr>overage := update_one (overage s3) userid payload\<rparr>))))"

text \<open>\<^verbatim>\<open>notify_allowed(userid, work)\<close>.\<close>

definition notify_allowed :: "env \<Rightarrow> string \<Rightarrow> json \<Rightarrow> state \<Rightarrow> (exn + bool) \<times> state" where
  "notify_allowed e userid work s =
     (if \<not> truthy work then (Inr False, s)
      else case contains work ''config'' of
        Inl err \<Rightarrow> (Inl err, s)
      | Inr False \<Rightarrow> (Inr False, s)
      | Inr True \<Rightarrow>
          (case subscript work ''config'' of
             Inl err \<Rightarrow> (Inl err, s)
           | Inr cfg \<Rightarrow>
               (case subscript cfg ''active'' of
                  Inl err \<Rightarrow> (Inl err, s)
                | Inr active \<Rightarrow>
                    if active \<noteq> JStr ''Y'' then (Inr False, s)
                    else if db_fails e (tick s)
                      then terminate_program (Some (Exn MongoError)) (advance s)
                    else
                      (case find_one (overage s) userid of
                         None \<Rightarrow> (Inr True, advance s)
                       | Some result \<Rightarrow>
                           let s1 = advance s;
                               delta = clock e (tick s1) - notified result;
                               s2 = advance s1
                           in (Inr (days delta \<ge> 1),
                               if days delta < 1
                               then logging Warning
                                      (Can_be_notified_in userid (DAY - seconds delta)) s2
                               else s2)))))"

text \<open>The condition of line 165, \<^verbatim>\<open>usr['rec_aggrs']['size'] > ARG.LIMIT * (1024 ** 4)\<close>.\<close>

definition over_limit :: "env \<Rightarrow> usage \<Rightarrow> bool" where
  "over_limit e usr = int_gt (rec_size usr) (times_1024_4 (LIMIT e))"

text \<open>The body of the loop of \<^verbatim>\<open>process_usage\<close>, for one usage record. The handler of
  \<^verbatim>\<open>requests.HTTPError\<close> is the first case.\<close>

definition process_usr :: "env \<Rightarrow> usage \<Rightarrow> state \<Rightarrow> (exn + unit) \<times> state" where
  "process_usr e usr s =
     (if over_limit e usr then
        (case call_responder (config e) (''config/workday/'' @ fn usr) s of
           (Inl HTTPError, s1) \<Rightarrow>
             terminate_program (Some (Not_found_in_Workday (fn usr))) s1
         | (Inl err, s1) \<Rightarrow> (Inl err, s1)
         | (Inr r, s1) \<Rightarrow>
             let data = (case r of None \<Rightarrow> JNull | Some j \<Rightarrow> j) in
             (case notify_allowed e (fn usr) data s1 of
                (Inl err, s2) \<Rightarrow> (Inl err, s2)
              | (Inr False, s2) \<Rightarrow> (Inr (), print YELLOW usr s2)
              | (Inr True, s2) \<Rightarrow>
                  let s3 = print RED usr s2 in
                  if WRITE e then
                    (case subscript data ''config'' of
                       Inl err \<Rightarrow> (Inl err, s3)
                     | Inr cfg \<Rightarrow> generate_email e (fn usr) cfg (rec_size_hum usr) s3)
                  else (Inr (), s3)))
      else (Inr (), print GREEN usr s))"

fun process_usage_loop :: "env \<Rightarrow> usage list \<Rightarrow> state \<Rightarrow> (exn + unit) \<times> state" where
  "process_usage_loop e [] s = (Inr (), s)"
| "process_usage_loop e (usr # resp) s =
     (case process_usr e usr s of
        (Inl err, s1) \<Rightarrow> (Inl err, s1)
      | (Inr u, s1) \<Rightarrow> process_usage_loop e resp s1)"

text \<open>\<^verbatim>\<open>process_usage()\<close>: a response \<^verbatim>\<open>None\<close> (status 404) cannot be iterated.\<close>

definition process_usage :: "env \<Rightarrow> state \<Rightarrow> (exn + unit) \<times> state" where
  "process_usage e s =
     (case call_responder (starfish e) (REST_query e (GROUP e)) s of
        (Inl err, s1) \<Rightarrow> (Inl err, s1)
      | (Inr None, s1) \<Rightarrow> (Inl TypeError, s1)
      | (Inr (Some resp), s1) \<Rightarrow> process_usage_loop e resp s1)"

subsection \<open>The collection from one state to a later one\<close>

text \<open>
  \<open>steady e\<close>: the clock of the run may step back, but never by more than a day less a
  millisecond (23 h 59 min 59.999 s) from one interaction to a later one.
\<close>

definition steady :: "env \<Rightarrow> bool" where
  "steady e \<longleftrightarrow> (\<forall>n m. n \<le> m \<longrightarrow> clock e n \<le> clock e m + 86399999000)"

text \<open>
  \<open>kept e s s'\<close>: \<open>s'\<close> is not before \<open>s\<close> in the count of interactions, and every user with a
  document in \<open>s\<close> has one in \<open>s'\<close>, which is the same document, or one whose \<open>notified\<close> is
  the clock of an interaction between the two states, as a BSON date, and is not earlier
  than before when the clock is steady.
\<close>

definition kept :: "env \<Rightarrow> state \<Rightarrow> state \<Rightarrow> bool" where
  "kept e s s' \<longleftrightarrow>
     tick s \<le> tick s' \<and>
     (\<forall>userid r. find_one (overage s) userid = Some r \<longrightarrow>
        (\<exists>r'. find_one (overage s') userid = Some r' \<and>
           (r' = r \<or> ((steady e \<longrightarrow> notified r \<le> notified r') \<and>
                       (\<exists>n. tick s \<le> n \<and> n < tick s' \<and>
                            notified r' = bson_datetime (clock e n))))))"

subsection \<open>Concrete runs\<close>

text \<open>
  The data of the examples below: a Workday record with a given \<open>active\<close> value, a user at
  0.6 TiB, and an environment with the default limit of 0.5 TiB, write mode, a configuration
  server that always gives the same answer, and a clock that starts one day after the
  origin and advances by a microsecond at every interaction.
\<close>

definition workday_record :: "json \<Rightarrow> json" where
  "workday_record a =
     JDict [(''config'', JDict [(''active'', a), (''first'', JStr ''Alice''),
                               (''email'', JStr ''alice@hhmi.org'')])]"

definition alice :: usage where
  "alice = \<lparr>fn = ''alice'', rec_size = 659706976666, rec_size_hum = ''614.4G''\<rparr>"

definition test_env :: "json response \<Rightarrow> bool \<Rightarrow> bool \<Rightarrow> env" where
  "test_env r mf df =
     \<lparr>LIMIT = Finite (1 / 2), WRITE = True, GROUP = ''scicomp'', REST_query = (\<lambda>g. ''query/'' @ g),
      starfish = (\<lambda>n ep. Response 200 (Some [alice])),
      config = (\<lambda>n ep. r),
      clock = (\<lambda>n. 86400000000 + int n),
      mail_fails = (\<lambda>n. mf), db_fails = (\<lambda>n. df)\<rparr>"

definition test_state :: "overage_doc list \<Rightarrow> state" where
  "test_state docs = \<lparr>overage = docs, tick = 0, log = [], outbox = [], printed = []\<rparr>"

definition alice_doc :: "int \<Rightarrow> overage_doc" where
  "alice_doc t = \<lparr>userId = ''alice'', size_str = ''600.0G'', notified = t\<rparr>"

text \<open>An environment that knows the user as active and whose clock, a day and 100 ms
  after the origin, is set back to 5 ms after the origin at the interaction numbered 5.\<close>

definition set_back_env :: env where
  "set_back_env =
     (test_env (Response 200 (Some (workday_record (JStr ''Y'')))) False False)
       \<lparr>clock := (\<lambda>n. if n = 5 then 5000 else 86400100000 + int n)\<rparr>"

section \<open>Properties\<close>

subsection \<open>Auxiliary facts\<close>

lemma subscript_contains: "subscript w k = Inr v \<Longrightarrow> truthy w \<and> contains w k = Inr True"
  by (cases w) (auto split: option.splits dest: map_of_SomeD intro: rev_image_eqI)

text \<open>With an active Workday record the first two tests pass, and what is left of
  \<open>notify_allowed\<close> is the look at the collection.\<close>

lemma notify_allowed_active:
  assumes "subscript work ''config'' = Inr cfg" and "subscript cfg ''active'' = Inr (JStr ''Y'')"
  shows "notify_allowed e userid work s =
     (if db_fails e (tick s) then terminate_program (Some (Exn MongoError)) (advance s)
      else case find_one (overage s) userid of
         None \<Rightarrow> (Inr True, advance s)
       | Some result \<Rightarrow>
           let delta = clock e (Suc (tick s)) - notified result
           in (Inr (days delta \<ge> 1),
               if days delta < 1
               then logging Warning (Can_be_notified_in userid (DAY - seconds delta))
                      (advance (advance s))
               else advance (advance s)))"
  using assms subscript_contains[OF assms(1)]
  by (simp add: notify_allowed_def Let_def advance_def split: option.splits)

lemma notify_allowed_inactive:
  assumes "subscript work ''config'' = Inr cfg" and "subscript cfg ''active'' = Inr v"
    and "v \<noteq> JStr ''Y''"
  shows "notify_allowed e userid work s = (Inr False, s)"
  using assms subscript_contains[OF assms(1)] by (simp add: notify_allowed_def)

lemma days_ge_1: "(1 \<le> days d) = (86400 * 1000000 \<le> d)"
proof -
  have "(0 < d div (86400 * 1000000)) = (86400 * 1000000 \<le> d)"
    by (rule pos_imp_zdiv_pos_iff) simp
  then show ?thesis
    by (simp add: days_def DAY_def int_one_le_iff_zero_less)
qed

lemma overage_notify_allowed: "overage (snd (notify_allowed e userid work s)) = overage s"
  by (simp add: notify_allowed_def terminate_program_def logging_def advance_def Let_def
      split: sum.splits option.splits bool.splits)

lemma call_responder_200:
  "server (tick s) endpoint = Response 200 (Some j) \<Longrightarrow>
   call_responder server endpoint s = (Inr (Some j), advance s)"
  by (simp add: call_responder_def)

lemma call_responder_not_HTTPError:
  "fst (call_responder server endpoint s) \<noteq> Inl HTTPError"
  by (simp add: call_responder_def terminate_program_def split: response.splits option.splits)


lemma generate_email_db_fails:
  assumes "subscript work ''first'' = Inr f" and "subscript work ''email'' = Inr em"
    and "\<not> mail_fails e (tick s)" and "db_fails e (Suc (Suc (tick s)))"
  shows "generate_email e userid work c s =
     (Inl (SystemExit (- 1)),
      logging Critical (Exn MongoError)
        (advance (advance (advance
           ((logging Info (Sending_email_to em) s)\<lparr>outbox := outbox s @
              [\<lparr>first = f, consumed = c, limit = LIMIT e, sender = SENDER,
                receivers = [em], subject = ''Disk space warning''\<rparr>]\<rparr>)))))"
  using assms by (simp add: generate_email_def Let_def logging_def advance_def terminate_program_def)

text \<open>A user who passes \<open>notify_allowed\<close> and whose mail is to be sent.\<close>

lemma process_usr_notify:
  assumes "over_limit e usr"
    and "config e (tick s) (''config/workday/'' @ fn usr) = Response 200 (Some data)"
    and "notify_allowed e (fn usr) data (advance s) = (Inr True, sn)"
    and "WRITE e" and "subscript data ''config'' = Inr cfg"
  shows "process_usr e usr s = generate_email e (fn usr) cfg (rec_size_hum usr) (print RED usr sn)"
  using assms by (simp add: process_usr_def call_responder_200)


text \<open>The collection through the run: each function keeps it in the sense of \<open>kept\<close>.\<close>

lemma bson_datetime_bounds: "t - 999 \<le> bson_datetime t \<and> bson_datetime t \<le> t"
proof -
  have "0 \<le> t mod 1000" "t mod 1000 < 1000" by simp_all
  then show ?thesis unfolding bson_datetime_def by linarith
qed

lemma kept_same: "overage s' = overage s \<Longrightarrow> tick s \<le> tick s' \<Longrightarrow> kept e s s'"
  by (simp add: kept_def)

lemma kept_trans:
  assumes "kept e s s'" and "kept e s' s''"
  shows "kept e s s''"
  unfolding kept_def
proof (intro conjI allI impI)
  show "tick s \<le> tick s''" using assms by (simp add: kept_def)
next
  fix userid r
  assume "find_one (overage s) userid = Some r"
  with assms(1) obtain r' where r': "find_one (overage s') userid = Some r'"
    "r' = r \<or> ((steady e \<longrightarrow> notified r \<le> notified r') \<and>
       (\<exists>n. tick s \<le> n \<and> n < tick s' \<and> notified r' = bson_datetime (clock e n)))"
    unfolding kept_def by blast
  from assms(2) r'(1) obtain r'' where r'': "find_one (overage s'') userid = Some r''"
    "r'' = r' \<or> ((steady e \<longrightarrow> notified r' \<le> notified r'') \<and>
       (\<exists>n. tick s' \<le> n \<and> n < tick s'' \<and> notified r'' = bson_datetime (clock e n)))"
    unfolding kept_def by blast
  have t: "tick s \<le> tick s'" "tick s' \<le> tick s''" using assms by (simp_all add: kept_def)
  have le: "steady e \<longrightarrow> notified r \<le> notified r'" using r'(2) by auto
  have "r'' = r \<or> ((steady e \<longrightarrow> notified r \<le> notified r'') \<and>
       (\<exists>n. tick s \<le> n \<and> n < tick s'' \<and> notified r'' = bson_datetime (clock e n)))"
  proof (cases "r'' = r'")
    case True
    show ?thesis
    proof (cases "r' = r")
      case True
      with \<open>r'' = r'\<close> show ?thesis by simp
    next
      case False
      with r'(2) obtain n where "tick s \<le> n" "n < tick s'"
        "notified r' = bson_datetime (clock e n)" by blast
      with t(2) have "tick s \<le> n \<and> n < tick s'' \<and> notified r' = bson_datetime (clock e n)"
        by simp
      with le True show ?thesis by blast
    qed
  next
    case False
    with r''(2) obtain n where n: "steady e \<longrightarrow> notified r' \<le> notified r''"
      "tick s' \<le> n" "n < tick s''" "notified r'' = bson_datetime (clock e n)" by blast
    from n(2) t(1) have "tick s \<le> n" by simp
    moreover from le n(1) have "steady e \<longrightarrow> notified r \<le> notified r''" by auto
    ultimately show ?thesis using n(3,4) by blast
  qed
  with r''(1) show "\<exists>r'. find_one (overage s'') userid = Some r' \<and>
           (r' = r \<or> ((steady e \<longrightarrow> notified r \<le> notified r') \<and>
                       (\<exists>n. tick s \<le> n \<and> n < tick s'' \<and>
                            notified r' = bson_datetime (clock e n))))"
    by blast
qed

lemma find_one_update_one_other:
  "userId p = u \<Longrightarrow> u' \<noteq> u \<Longrightarrow> find_one (update_one ds u p) u' = find_one ds u'"
  by (induction ds) auto

lemma find_one_update_one_same:
  "userId p = u \<Longrightarrow>
   \<exists>d. find_one (update_one ds u p) u = Some d \<and> notified d = bson_datetime (notified p)"
  by (induction ds) auto

lemma call_responder_state:
  "overage (snd (call_responder server endpoint s)) = overage s
   \<and> tick (snd (call_responder server endpoint s)) = Suc (tick s)"
  by (simp add: call_responder_def terminate_program_def logging_def advance_def
      split: response.splits option.splits)

lemma tick_notify_allowed: "tick s \<le> tick (snd (notify_allowed e userid work s))"
  by (simp add: notify_allowed_def terminate_program_def logging_def advance_def Let_def
      split: sum.splits option.splits bool.splits)

lemma notify_allowed_True:
  assumes "notify_allowed e userid work s = (Inr True, s')"
  shows "Suc (tick s) \<le> tick s'"
    and "find_one (overage s) userid = Some r \<Longrightarrow>
         notified r + 86400000000 \<le> clock e (Suc (tick s))"
proof -
  from assms have "fst (notify_allowed e userid work s) = Inr True" by simp
  then obtain cfg where cfg: "subscript work ''config'' = Inr cfg"
      "subscript cfg ''active'' = Inr (JStr ''Y'')"
    by (auto simp add: notify_allowed_def split: if_splits sum.splits bool.splits)
  have nf: "\<not> db_fails e (tick s)"
    using assms by (auto simp add: notify_allowed_active[OF cfg] terminate_program_def)
  show "Suc (tick s) \<le> tick s'"
    using assms nf
    by (auto simp add: notify_allowed_active[OF cfg] Let_def advance_def logging_def
        split: option.splits if_splits)
  show "notified r + 86400000000 \<le> clock e (Suc (tick s))"
    if "find_one (overage s) userid = Some r"
  proof -
    have "1 \<le> days (clock e (Suc (tick s)) - notified r)"
      using assms that nf by (simp add: notify_allowed_active[OF cfg] Let_def)
    then show ?thesis unfolding days_ge_1 by linarith
  qed
qed

lemma generate_email_state:
  "snd (generate_email e userid work c s) = s'
   \<Longrightarrow> (overage s' = overage s \<and> tick s \<le> tick s')
     \<or> (overage s' = update_one (overage s) userid
            \<lparr>userId = userid, size_str = c, notified = clock e (Suc (tick s))\<rparr>
         \<and> tick s' = tick s + 3)"
  by (auto simp add: generate_email_def terminate_program_def logging_def advance_def Let_def
      split: sum.splits if_splits)

lemma kept_generate_email:
  assumes "k \<le> Suc (tick s)"
    and "\<And>r. find_one (overage s) userid = Some r \<Longrightarrow> notified r + 86400000000 \<le> clock e k"
  shows "kept e s (snd (generate_email e userid work c s))"
proof -
  define s' where "s' = snd (generate_email e userid work c s)"
  define p where "p = \<lparr>userId = userid, size_str = c, notified = clock e (Suc (tick s))\<rparr>"
  from generate_email_state[of e userid work c s s']
  consider "overage s' = overage s" "tick s \<le> tick s'"
    | "overage s' = update_one (overage s) userid p" "tick s' = tick s + 3"
    by (auto simp add: s'_def p_def)
  then have "kept e s s'"
  proof cases
    case 1
    then show ?thesis by (rule kept_same)
  next
    case 2
    have up: "userId p = userid" "notified p = clock e (Suc (tick s))" by (simp_all add: p_def)
    show ?thesis
      unfolding kept_def
    proof (intro conjI allI impI)
      show "tick s \<le> tick s'" using 2 by simp
    next
      fix u r
      assume r: "find_one (overage s) u = Some r"
      show "\<exists>r'. find_one (overage s') u = Some r' \<and>
           (r' = r \<or> ((steady e \<longrightarrow> notified r \<le> notified r') \<and>
                       (\<exists>n. tick s \<le> n \<and> n < tick s' \<and>
                            notified r' = bson_datetime (clock e n))))"
      proof (cases "u = userid")
        case False
        then show ?thesis using r 2 find_one_update_one_other[OF up(1)] by simp
      next
        case True
        from find_one_update_one_same[OF up(1), of "overage s"]
        obtain d where d: "find_one (overage s') userid = Some d"
          "notified d = bson_datetime (notified p)"
          using 2 by auto
        have le: "notified r \<le> notified d" if "steady e"
        proof -
          have "notified r + 86400000000 \<le> clock e k" using assms(2) r True by simp
          moreover have "clock e k \<le> clock e (Suc (tick s)) + 86399999000"
            using that assms(1) by (simp add: steady_def)
          moreover have "clock e (Suc (tick s)) - 999 \<le> notified d"
            using bson_datetime_bounds[of "clock e (Suc (tick s))"] d(2) up(2) by simp
          ultimately show ?thesis by linarith
        qed
        have "tick s \<le> Suc (tick s) \<and> Suc (tick s) < tick s'
            \<and> notified d = bson_datetime (clock e (Suc (tick s)))"
          using 2 d up by simp
        with le show ?thesis using d True by blast
      qed
    qed
  qed
  then show ?thesis by (simp add: s'_def)
qed

lemma kept_print: "kept e s s' \<Longrightarrow> kept e s (print c usr s')"
  by (simp add: kept_def print_def)

text \<open>A user over the limit: from the answer of the configuration server on.\<close>

lemma kept_flagged:
  assumes "over_limit e usr"
  shows "kept e (snd (call_responder (config e) (''config/workday/'' @ fn usr) s))
           (snd (process_usr e usr s))"
proof -
  obtain res sa where cr: "call_responder (config e) (''config/workday/'' @ fn usr) s = (res, sa)"
    by (cases "call_responder (config e) (''config/workday/'' @ fn usr) s")
  have k1: "kept e sa sa" by (simp add: kept_same)
  have "kept e sa (snd (process_usr e usr s))"
  proof (cases res)
    case (Inl err)
    then show ?thesis
      using assms cr k1
      by (cases err) (simp_all add: process_usr_def terminate_program_def logging_def kept_def)
  next
    case (Inr r)
    define data where "data = (case r of None \<Rightarrow> JNull | Some j \<Rightarrow> j)"
    obtain ans sb where na: "notify_allowed e (fn usr) data sa = (ans, sb)"
      by (cases "notify_allowed e (fn usr) data sa")
    have sb: "overage sb = overage sa" "tick sa \<le> tick sb"
      using overage_notify_allowed[of e "fn usr" data sa]
        tick_notify_allowed[of sa e "fn usr" data] na by simp_all
    then have k2: "kept e sa sb" by (simp add: kept_same)
    have pu: "process_usr e usr s =
       (case ans of
          Inl err \<Rightarrow> (Inl err, sb)
        | Inr False \<Rightarrow> (Inr (), print YELLOW usr sb)
        | Inr True \<Rightarrow>
            if WRITE e then
              (case subscript data ''config'' of
                 Inl err \<Rightarrow> (Inl err, print RED usr sb)
               | Inr cfg \<Rightarrow> generate_email e (fn usr) cfg (rec_size_hum usr) (print RED usr sb))
            else (Inr (), print RED usr sb))"
      using assms cr Inr na
      by (simp add: process_usr_def data_def Let_def split: sum.splits bool.splits)
    show ?thesis
    proof (cases ans)
      case (Inl err)
      then show ?thesis using pu k2 by simp
    next
      case ans: (Inr b)
      show ?thesis
      proof (cases "b \<and> WRITE e")
        case False
        then show ?thesis using pu ans k2 by (auto simp add: kept_print split: bool.splits)
      next
        case bw: True
        with na ans have na': "notify_allowed e (fn usr) data sa = (Inr True, sb)" by simp
        show ?thesis
        proof (cases "subscript data ''config''")
          case (Inl err)
          then show ?thesis using pu ans bw k2 by (simp add: kept_print)
        next
          case (Inr cfg)
          let ?s = "print RED usr sb"
          have "kept e ?s (snd (generate_email e (fn usr) cfg (rec_size_hum usr) ?s))"
          proof (rule kept_generate_email[where k = "Suc (tick sa)"])
            show "Suc (tick sa) \<le> Suc (tick ?s)"
              using notify_allowed_True(1)[OF na'] by (simp add: print_def)
          next
            fix r
            assume "find_one (overage ?s) (fn usr) = Some r"
            then have "find_one (overage sa) (fn usr) = Some r"
              using sb by (simp add: print_def)
            then show "notified r + 86400000000 \<le> clock e (Suc (tick sa))"
              by (rule notify_allowed_True(2)[OF na'])
          qed
          with kept_print[OF k2, of RED usr] have
            "kept e sa (snd (generate_email e (fn usr) cfg (rec_size_hum usr) ?s))"
            by (rule kept_trans)
          then show ?thesis using pu ans bw Inr by simp
        qed
      qed
    qed
  qed
  then show ?thesis using cr by simp
qed

lemma kept_process_usr: "kept e s (snd (process_usr e usr s))"
proof (cases "over_limit e usr")
  case False
  then show ?thesis by (simp add: process_usr_def kept_print kept_same)
next
  case True
  have "kept e s (snd (call_responder (config e) (''config/workday/'' @ fn usr) s))"
    using call_responder_state[of "config e" "''config/workday/'' @ fn usr" s]
    by (simp add: kept_same)
  then show ?thesis using kept_flagged[OF True] by (rule kept_trans)
qed


lemma kept_process_usage_loop: "kept e s (snd (process_usage_loop e resp s))"
proof (induction resp arbitrary: s)
  case Nil
  show ?case by (simp add: kept_same)
next
  case (Cons usr resp)
  obtain res sa where pu: "process_usr e usr s = (res, sa)"
    by (cases "process_usr e usr s")
  have k: "kept e s sa" using kept_process_usr[of e s usr] pu by simp
  show ?case
  proof (cases res)
    case (Inl err)
    then show ?thesis using pu k by simp
  next
    case (Inr u)
    then show ?thesis using pu kept_trans[OF k Cons.IH[of sa]] by simp
  qed
qed

lemma kept_process_usage: "kept e s (snd (process_usage e s))"
proof -
  obtain res sa where cr: "call_responder (starfish e) (REST_query e (GROUP e)) s = (res, sa)"
    by (cases "call_responder (starfish e) (REST_query e (GROUP e)) s")
  have k: "kept e s sa"
    using call_responder_state[of "starfish e" "REST_query e (GROUP e)" s] cr
    by (simp add: kept_same)
  show ?thesis
  proof (cases res)
    case (Inl err)
    then show ?thesis using cr k by (simp add: process_usage_def)
  next
    case (Inr r)
    show ?thesis
    proof (cases r)
      case None
      then show ?thesis using cr Inr k by (simp add: process_usage_def)
    next
      case (Some resp)
      then show ?thesis
        using cr Inr kept_trans[OF k kept_process_usage_loop[of e sa resp]]
        by (simp add: process_usage_def)
    qed
  qed
qed

subsection \<open>The eligibility decision\<close>

text \<open>
  C1. A user with an active Workday record and a document in the collection, notified at
  \<open>notified r\<close>, whose lookup succeeds: with \<open>now\<close> the clock read by \<open>notify_allowed\<close>, the
  answer is whether \<open>now\<close> is at least 24 hours after the notification. So it is false
  from the notification up to (not including) 24 hours later, and true from exactly 24
  hours on. The test is the one on whole elapsed days, the floor of the elapsed seconds
  divided by 86400.
\<close>

theorem cooldown_24h:
  assumes "subscript work ''config'' = Inr cfg" and "subscript cfg ''active'' = Inr (JStr ''Y'')"
    and "\<not> db_fails e (tick s)" and "find_one (overage s) userid = Some r"
    and "now = clock e (Suc (tick s))"
  shows "fst (notify_allowed e userid work s) = Inr (notified r + 24 * 3600 * 1000000 \<le> now)
       \<and> (notified r + 24 * 3600 * 1000000 \<le> now)
           = (1 \<le> ((now - notified r) div 1000000) div 86400)"
proof -
  have "fst (notify_allowed e userid work s) = Inr (1 \<le> days (now - notified r))"
    using assms(3-5) by (simp add: notify_allowed_active[OF assms(1,2)] Let_def)
  moreover have "(1 \<le> days (now - notified r)) = (notified r + 24 * 3600 * 1000000 \<le> now)"
    by (auto simp add: days_ge_1)
  moreover have "((now - notified r) div 1000000) div 86400 = days (now - notified r)"
    by (simp add: days_def DAY_def zdiv_zmult2_eq)
  ultimately show ?thesis by simp
qed

text \<open>Notified one microsecond less than a day ago: not allowed. Notified exactly a day
  ago: allowed.\<close>

theorem cooldown_24h_witness:
  "fst (notify_allowed (test_env Get_raises False False) ''alice'' (workday_record (JStr ''Y''))
         (test_state [alice_doc 2])) = Inr False
   \<and> fst (notify_allowed (test_env Get_raises False False) ''alice'' (workday_record (JStr ''Y''))
         (test_state [alice_doc 1])) = Inr True"
  using cooldown_24h[of "workday_record (JStr ''Y'')" _ "test_env Get_raises False False"
             "test_state [alice_doc 2]" "''alice''" "alice_doc 2" 86400000001]
        cooldown_24h[of "workday_record (JStr ''Y'')" _ "test_env Get_raises False False"
             "test_state [alice_doc 1]" "''alice''" "alice_doc 1" 86400000001]
  by (simp add: workday_record_def test_env_def test_state_def alice_doc_def)

text \<open>
  C4. The specification has \<open>notify_allowed\<close> return false when the record is absent or
  its \<open>active\<close> flag is not affirmatively true. A Workday record whose \<open>config\<close> has no
  \<open>active\<close> field has no affirmative flag, but \<open>notify_allowed\<close> does not return false for
  it: the lookup of line 140 raises \<^verbatim>\<open>KeyError\<close>, where a record without \<open>config\<close> is
  caught by the test of line 137.
\<close>

theorem missing_active_raises:
  "notify_allowed (test_env Get_raises False False) ''alice''
     (JDict [(''config'', JDict [(''first'', JStr ''Alice''),
                                 (''email'', JStr ''alice@hhmi.org'')])])
     (test_state [])
   = (Inl (KeyError ''active''), test_state [])"
  by (simp add: notify_allowed_def)

text \<open>
  C5. A user with an active Workday record and no document in the collection is allowed,
  when the lookup succeeds.
\<close>

theorem never_notified_allowed:
  assumes "subscript work ''config'' = Inr cfg" and "subscript cfg ''active'' = Inr (JStr ''Y'')"
    and "\<not> db_fails e (tick s)" and "find_one (overage s) userid = None"
  shows "notify_allowed e userid work s = (Inr True, advance s)"
  using assms(3,4) by (simp add: notify_allowed_active[OF assms(1,2)])

theorem never_notified_allowed_witness:
  "notify_allowed (test_env Get_raises False False) ''alice'' (workday_record (JStr ''Y''))
     (test_state []) = (Inr True, advance (test_state []))"
  using never_notified_allowed[of "workday_record (JStr ''Y'')" _
          "test_env Get_raises False False" "test_state []" "''alice''"]
  by (simp add: workday_record_def test_env_def test_state_def)

text \<open>
  C9. \<open>notify_allowed\<close> only reads the collection: whatever it is given and however it
  ends, the collection afterwards is the collection before.
\<close>

theorem notify_allowed_read_only:
  "overage (snd (notify_allowed e userid work s)) = overage s"
  by (rule overage_notify_allowed)

text \<open>
  C10. \<open>notify_allowed\<close> returns true only for a record that has the key \<open>config\<close> whose
  \<open>active\<close> is the string \<^verbatim>\<open>'Y'\<close>. A record whose \<open>active\<close> is any other value, and a
  record (a dictionary) without the key \<open>config\<close>, get the answer of an absent record,
  which is false.
\<close>

theorem allowed_only_if_active_Y:
  "(fst (notify_allowed e userid work s) = Inr True \<longrightarrow>
      (\<exists>cfg. subscript work ''config'' = Inr cfg \<and> subscript cfg ''active'' = Inr (JStr ''Y'')))
   \<and> (subscript work' ''config'' = Inr cfg' \<and> subscript cfg' ''active'' = Inr v \<and> v \<noteq> JStr ''Y''
        \<longrightarrow> notify_allowed e userid work' s = notify_allowed e userid JNull s)
   \<and> (''config'' \<notin> set (map fst kvs)
        \<longrightarrow> notify_allowed e userid (JDict kvs) s = notify_allowed e userid JNull s)
   \<and> notify_allowed e userid JNull s = (Inr False, s)"
proof -
  have absent: "notify_allowed e userid JNull s = (Inr False, s)"
    by (simp add: notify_allowed_def)
  have only_Y: "\<exists>cfg. subscript work ''config'' = Inr cfg \<and> subscript cfg ''active'' = Inr (JStr ''Y'')"
    if "fst (notify_allowed e userid work s) = Inr True"
    using that
    by (auto simp add: notify_allowed_def split: if_splits sum.splits bool.splits)
  have no_config: "notify_allowed e userid (JDict kvs) s = (Inr False, s)"
    if "''config'' \<notin> set (map fst kvs)"
    using that by (simp add: notify_allowed_def)
  show ?thesis
    using absent only_Y no_config by (auto simp add: notify_allowed_inactive)
qed

text \<open>The values \<^verbatim>\<open>True\<close>, \<^verbatim>\<open>'y'\<close> and \<^verbatim>\<open>'Yes'\<close>, a record with no \<open>config\<close>, and \<^verbatim>\<open>'Y'\<close>.\<close>

theorem allowed_only_if_active_Y_witness:
  "notify_allowed (test_env Get_raises False False) ''alice'' (workday_record (JBool True)) (test_state [])
     = (Inr False, test_state [])
   \<and> notify_allowed (test_env Get_raises False False) ''alice'' (workday_record (JStr ''y'')) (test_state [])
     = (Inr False, test_state [])
   \<and> notify_allowed (test_env Get_raises False False) ''alice'' (workday_record (JStr ''Yes'')) (test_state [])
     = (Inr False, test_state [])
   \<and> notify_allowed (test_env Get_raises False False) ''alice'' (JDict [(''rest'', JDict [])]) (test_state [])
     = (Inr False, test_state [])
   \<and> fst (notify_allowed (test_env Get_raises False False) ''alice'' (workday_record (JStr ''Y'')) (test_state []))
     = Inr True
   \<and> subscript (workday_record (JStr ''Y'')) ''config''
     = Inr (JDict [(''active'', JStr ''Y''), (''first'', JStr ''Alice''), (''email'', JStr ''alice@hhmi.org'')])"
  using allowed_only_if_active_Y[of "test_env Get_raises False False" "''alice''" "workday_record (JStr ''Y'')" "test_state []"
            "workday_record (JBool True)" _ "JBool True" "[(''rest'', JDict [])]"]
        allowed_only_if_active_Y[of "test_env Get_raises False False" "''alice''" "workday_record (JStr ''Y'')" "test_state []"
            "workday_record (JStr ''y'')" _ "JStr ''y''" "[(''rest'', JDict [])]"]
        allowed_only_if_active_Y[of "test_env Get_raises False False" "''alice''" "workday_record (JStr ''Y'')" "test_state []"
            "workday_record (JStr ''Yes'')" _ "JStr ''Yes''" "[(''rest'', JDict [])]"]
  by (simp add: workday_record_def notify_allowed_def test_env_def test_state_def advance_def)

subsection \<open>The threshold\<close>





subsection \<open>The driver\<close>

text \<open>
  C2. The specification has a "not found" of Workday, for a user over the limit, end the
  run with an error. The run below has one user over the limit, for whom the configuration
  server
  answers 404. It does not end with an error: \<open>call_responder\<close> returns \<^verbatim>\<open>None\<close> for the
  404 and never raises \<^verbatim>\<open>HTTPError\<close>, so the handler of lines 168-169, which would
  terminate with "was not found in Workday", is never entered; \<open>notify_allowed\<close> answers
  false, the user is printed in yellow and the run ends normally.
\<close>

theorem workday_not_found_not_fatal:
  "over_limit (test_env (Response 404 None) False False) alice
   \<and> config (test_env (Response 404 None) False False) 1 (''config/workday/'' @ fn alice)
       = Response 404 None
   \<and> process_usage (test_env (Response 404 None) False False) (test_state [])
       = (Inr (), \<lparr>overage = [], tick = 2, log = [], outbox = [],
                    printed = [(YELLOW, ''alice'', ''614.4G'')]\<rparr>)"
  by (simp add: process_usage_def process_usr_def call_responder_def notify_allowed_def
      over_limit_def test_env_def test_state_def alice_def advance_def print_def)



text \<open>
  C7. A user over the limit, allowed, in write mode, whose mail is sent and whose write to
  the collection fails: the program exits with status -1 after a critical log line, and
  the result of the loop is the result of this user, whatever users follow.
\<close>

theorem ledger_write_failure_fatal:
  assumes "over_limit e usr"
    and "config e (tick s) (''config/workday/'' @ fn usr) = Response 200 (Some data)"
    and "notify_allowed e (fn usr) data (advance s) = (Inr True, sn)"
    and "WRITE e" and "subscript data ''config'' = Inr cfg"
    and "subscript cfg ''first'' = Inr f" and "subscript cfg ''email'' = Inr em"
    and "\<not> mail_fails e (tick sn)" and "db_fails e (Suc (Suc (tick sn)))"
  shows "fst (process_usr e usr s) = Inl (SystemExit (- 1))
       \<and> process_usage_loop e (usr # resp) s = process_usr e usr s
       \<and> overage (snd (process_usr e usr s)) = overage s
       \<and> log (snd (process_usr e usr s))
           = log sn @ [(Info, Sending_email_to em), (Critical, Exn MongoError)]"
proof -
  have "tick (print RED usr sn) = tick sn" by (simp add: print_def)
  with assms(8,9) have "\<not> mail_fails e (tick (print RED usr sn))"
     "db_fails e (Suc (Suc (tick (print RED usr sn))))" by simp_all
  note ge = generate_email_db_fails[OF assms(6,7) this]
  have pu: "process_usr e usr s =
     (Inl (SystemExit (- 1)),
      logging Critical (Exn MongoError)
        (advance (advance (advance
           ((logging Info (Sending_email_to em) (print RED usr sn))\<lparr>outbox :=
              outbox (print RED usr sn) @
              [\<lparr>first = f, consumed = rec_size_hum usr, limit = LIMIT e, sender = SENDER,
                receivers = [em], subject = ''Disk space warning''\<rparr>]\<rparr>)))))"
    by (simp only: process_usr_notify[OF assms(1-5)] ge)
  have "overage sn = overage (advance s)"
    using overage_notify_allowed[of e "fn usr" data "advance s"] assms(3) by simp
  then show ?thesis
    by (simp add: pu logging_def advance_def print_def)
qed

text \<open>Two users in the response; the write for the first fails, the second is never
  looked at.\<close>

theorem ledger_write_failure_fatal_witness:
  "process_usage_loop
     ((test_env (Response 200 (Some (workday_record (JStr ''Y'')))) False False)
        \<lparr>db_fails := (\<lambda>n. n = 4)\<rparr>) [alice, alice] (test_state [])
   = (Inl (SystemExit (- 1)),
      \<lparr>overage = [], tick = 5,
       log = [(Info, Sending_email_to (JStr ''alice@hhmi.org'')), (Critical, Exn MongoError)],
       outbox = [\<lparr>first = JStr ''Alice'', consumed = ''614.4G'', limit = Finite (1 / 2),
                  sender = SENDER, receivers = [JStr ''alice@hhmi.org''],
                  subject = ''Disk space warning''\<rparr>],
       printed = [(RED, ''alice'', ''614.4G'')]\<rparr>)"
  using ledger_write_failure_fatal[where e = "(test_env (Response 200 (Some (workday_record (JStr ''Y'')))) False False)
        \<lparr>db_fails := (\<lambda>n. n = 4)\<rparr>"
             and usr = alice and s = "test_state []" and data = "workday_record (JStr ''Y'')"
             and sn = "advance (advance (test_state []))"
             and cfg = "JDict [(''active'', JStr ''Y''), (''first'', JStr ''Alice''),
                               (''email'', JStr ''alice@hhmi.org'')]"
             and f = "JStr ''Alice''" and em = "JStr ''alice@hhmi.org''" and resp = "[alice]"]
  by (simp add: test_env_def over_limit_def alice_def test_state_def workday_record_def
      notify_allowed_def advance_def logging_def print_def process_usr_def call_responder_def
      generate_email_def terminate_program_def Let_def)

subsection \<open>The collection across runs\<close>

text \<open>
  C8, as the code has it. A run of \<open>process_usage\<close>, however it ends, leaves every document
  of the collection in place: afterwards the user still has a document, and it is either
  the one from before the run or one whose \<open>notified\<close> is the clock read during this run,
  as the collection stores it (to the millisecond). If the clock of the run never steps
  back by more than a day less a millisecond, \<open>notified\<close> is not earlier than before.
\<close>

theorem notified_kept_and_rising:
  assumes "find_one (overage s) userid = Some r"
  shows "\<exists>r'. find_one (overage (snd (process_usage e s))) userid = Some r' \<and>
           (r' = r \<or> (\<exists>n. tick s \<le> n \<and> n < tick (snd (process_usage e s)) \<and>
                          notified r' = bson_datetime (clock e n))) \<and>
           (steady e \<longrightarrow> notified r \<le> notified r')"
proof -
  from kept_process_usage[of e s] assms
  obtain r' where r': "find_one (overage (snd (process_usage e s))) userid = Some r'"
    "r' = r \<or> ((steady e \<longrightarrow> notified r \<le> notified r') \<and>
       (\<exists>n. tick s \<le> n \<and> n < tick (snd (process_usage e s)) \<and>
            notified r' = bson_datetime (clock e n)))"
    unfolding kept_def by blast
  from r'(2) have "steady e \<longrightarrow> notified r \<le> notified r'" by auto
  with r' show ?thesis by blast
qed

text \<open>A run that notifies a user last notified a day and three microseconds before.\<close>

theorem notified_kept_and_rising_witness:
  "steady (test_env (Response 200 (Some (workday_record (JStr ''Y'')))) False False)
   \<and> find_one (overage (test_state [alice_doc 0])) ''alice'' = Some (alice_doc 0)
   \<and> find_one (overage (snd (process_usage
         (test_env (Response 200 (Some (workday_record (JStr ''Y'')))) False False)
         (test_state [alice_doc 0])))) ''alice''
       = Some \<lparr>userId = ''alice'', size_str = ''614.4G'', notified = 86400000000\<rparr>"
proof -
  have m: "steady (test_env (Response 200 (Some (workday_record (JStr ''Y'')))) False False)"
    by (simp add: steady_def test_env_def)
  have f: "find_one (overage (test_state [alice_doc 0])) ''alice'' = Some (alice_doc 0)"
    by (simp add: test_state_def alice_doc_def)
  show ?thesis
    using m f notified_kept_and_rising[OF f,
        of "test_env (Response 200 (Some (workday_record (JStr ''Y'')))) False False"]
    by (simp add: process_usage_def process_usr_def call_responder_def notify_allowed_def
        generate_email_def over_limit_def test_env_def test_state_def alice_def alice_doc_def
        workday_record_def advance_def logging_def print_def Let_def days_def DAY_def
        bson_datetime_def)
qed

text \<open>A run whose clock is set back by more than a day between the test of
  \<open>notify_allowed\<close> and the write: the time of the user's document goes from 100 ms after
  the origin down to 5 ms after it.\<close>

theorem notified_decreases_when_clock_set_back:
  "find_one (overage (test_state [alice_doc 100000])) ''alice'' = Some (alice_doc 100000)
   \<and> notified (alice_doc 100000) = 100000
   \<and> find_one (overage (snd (process_usage set_back_env (test_state [alice_doc 100000]))))
        ''alice''
       = Some \<lparr>userId = ''alice'', size_str = ''614.4G'', notified = 5000\<rparr>"
  by (simp add: process_usage_def process_usr_def call_responder_def notify_allowed_def
      generate_email_def over_limit_def set_back_env_def test_env_def test_state_def alice_def
      alice_doc_def workday_record_def advance_def logging_def print_def Let_def days_def
      DAY_def bson_datetime_def)

end
